theory Spec2Isabelle
  imports Main "HOL-Library.Word"
begin

section \<open>Data model of \<^verbatim>\<open>fsm.h\<close>\<close>

text \<open>
  \<^verbatim>\<open>uint8_t\<close> is an 8-bit word. The return code \<^verbatim>\<open>int8_t\<close> is an 8-bit word as well,
  read as two's complement by \<open>sint\<close>: the code \<^verbatim>\<open>-1\<close> is the word \<open>- 1\<close>.
\<close>

type_synonym uint8_t = "8 word"
type_synonym int8_t = "8 word"

text \<open>\<^verbatim>\<open>#define FSM_MAX_NR_OF_STATES (uint8_t)10U\<close>\<close>

definition FSM_MAX_NR_OF_STATES :: uint8_t where
  "FSM_MAX_NR_OF_STATES = 10"

text \<open>
  A function pointer is the address of a function of the embedding program, a number; the
  C \<^verbatim>\<open>NULL\<close> pointer is \<open>None\<close>. The three pointer types \<^verbatim>\<open>FsmStateFunc_t*\<close>,
  \<^verbatim>\<open>FsmOnEntryFunc_t*\<close> and \<^verbatim>\<open>FsmOnExitFunc_t*\<close> share this representation.
\<close>

type_synonym fptr = nat

record FsmStateDef_t =
  stateFunc :: "fptr option"
  onEntryFunc :: "fptr option"
  onExitFunc :: "fptr option"

text \<open>
  \<^verbatim>\<open>FsmHandle_t\<close>: the array \<^verbatim>\<open>table[FSM_MAX_NR_OF_STATES]\<close> is a list; a handle of the
  C type has exactly \<open>FSM_MAX_NR_OF_STATES\<close> slots, which \<open>wf_handle\<close> says.
\<close>

record FsmHandle_t =
  currentState :: uint8_t
  table :: "FsmStateDef_t list"

definition wf_handle :: "FsmHandle_t \<Rightarrow> bool" where
  "wf_handle h = (length (table h) = unat FSM_MAX_NR_OF_STATES)"

section \<open>\<^verbatim>\<open>fsmInit\<close>\<close>

text \<open>
  The loop \<^verbatim>\<open>for (uint8_t i = 0; i < FSM_MAX_NR_OF_STATES; i++)\<close> of \<^verbatim>\<open>fsmInit\<close>, which
  stores \<^verbatim>\<open>NULL\<close> into the three fields of \<^verbatim>\<open>table[i]\<close>. The counter is an 8-bit word.
\<close>

function fsmInit_loop :: "uint8_t \<Rightarrow> FsmStateDef_t list \<Rightarrow> FsmStateDef_t list" where
  "fsmInit_loop i tbl =
     (if i < FSM_MAX_NR_OF_STATES
      then fsmInit_loop (i + 1)
             (tbl[unat i := (tbl ! unat i)\<lparr>stateFunc := None, onEntryFunc := None, onExitFunc := None\<rparr>])
      else tbl)"
  by pat_completeness auto
termination
proof (relation "measure (\<lambda>(i, tbl). unat FSM_MAX_NR_OF_STATES - unat i)")
  show "wf (measure (\<lambda>(i, tbl). unat FSM_MAX_NR_OF_STATES - unat i))"
    by simp
next
  fix i :: uint8_t and tbl :: "FsmStateDef_t list"
  assume lt: "i < FSM_MAX_NR_OF_STATES"
  then have a: "unat i < 10"
    by (simp add: FSM_MAX_NR_OF_STATES_def word_less_nat_alt)
  then have "unat (i + 1) = unat i + 1"
    by (simp add: unat_word_ariths)
  with a show "((i + 1, tbl[unat i := (tbl ! unat i)\<lparr>stateFunc := None, onEntryFunc := None, onExitFunc := None\<rparr>]), (i, tbl))
        \<in> measure (\<lambda>(i, tbl). unat FSM_MAX_NR_OF_STATES - unat i)"
    by (simp add: FSM_MAX_NR_OF_STATES_def)
qed

declare fsmInit_loop.simps [simp del]

text \<open>
  \<^verbatim>\<open>int8_t fsmInit(FsmHandle_t* fsmHandle, const uint8_t initState)\<close>. The handle is
  passed by pointer and written in place; the model returns the return code together
  with the handle as the call leaves it. The pointer is taken to point to a handle: none
  of the three entry points tests it.
\<close>

definition fsmInit :: "FsmHandle_t \<Rightarrow> uint8_t \<Rightarrow> int8_t \<times> FsmHandle_t" where
  "fsmInit fsmHandle initState =
     (let stateAdded = - 1;
          cleared = fsmHandle\<lparr>table := fsmInit_loop 0 (table fsmHandle)\<rparr>
      in if initState < FSM_MAX_NR_OF_STATES
         then (0, cleared\<lparr>currentState := initState\<rparr>)
         else (stateAdded, cleared\<lparr>currentState := 0\<rparr>))"

section \<open>\<^verbatim>\<open>fsmAdd\<close>\<close>

text \<open>
  \<^verbatim>\<open>int8_t fsmAdd(FsmHandle_t* fsmHandle, const uint8_t state, FsmStateFunc_t stateFunc,
  FsmOnEntryFunc_t onEntryFunc, FsmOnExitFunc_t onExitFunc)\<close>. The three fields of
  \<^verbatim>\<open>table[state]\<close> are assigned one after the other.
\<close>

definition fsmAdd ::
  "FsmHandle_t \<Rightarrow> uint8_t \<Rightarrow> fptr option \<Rightarrow> fptr option \<Rightarrow> fptr option \<Rightarrow> int8_t \<times> FsmHandle_t" where
  "fsmAdd fsmHandle state stateFunc' onEntryFunc' onExitFunc' =
     (let stateAdded = - 1
      in if state < FSM_MAX_NR_OF_STATES \<and> stateFunc' \<noteq> None
         then (0, fsmHandle\<lparr>table := (table fsmHandle)
                     [unat state := (table fsmHandle ! unat state)
                        \<lparr>stateFunc := stateFunc', onEntryFunc := onEntryFunc', onExitFunc := onExitFunc'\<rparr>]\<rparr>)
         else (stateAdded, fsmHandle))"

section \<open>The user's actions\<close>

text \<open>
  The actions are functions of the embedding program, reached through the pointers of the
  table. They take no argument and work on the rest of the program's state, the world
  \<open>'w\<close>; they can read the handle (it is passed to them as it stands at the call) and do
  not write to it: the handle is written by \<^verbatim>\<open>fsmInit\<close>, \<^verbatim>\<open>fsmAdd\<close> and \<^verbatim>\<open>fsmRun\<close>
  only. Every action returns.
\<close>

record 'w program =
  stateFuncAt :: "fptr \<Rightarrow> FsmHandle_t \<Rightarrow> 'w \<Rightarrow> uint8_t \<times> 'w"
  onEntryFuncAt :: "fptr \<Rightarrow> FsmHandle_t \<Rightarrow> 'w \<Rightarrow> 'w"
  onExitFuncAt :: "fptr \<Rightarrow> FsmHandle_t \<Rightarrow> 'w \<Rightarrow> 'w"

text \<open>
  Beside the world, the model keeps the list of the calls made through the table, oldest
  first: which pointer was called, and the \<^verbatim>\<open>currentState\<close> the handle held during the
  call.
\<close>

datatype call = CallStateFunc fptr | CallOnEntryFunc fptr | CallOnExitFunc fptr

record 'w env =
  world :: 'w
  calls :: "(call \<times> uint8_t) list"

definition call_stateFunc :: "'w program \<Rightarrow> fptr \<Rightarrow> FsmHandle_t \<Rightarrow> 'w env \<Rightarrow> uint8_t \<times> 'w env" where
  "call_stateFunc prog f h e =
     (case stateFuncAt prog f h (world e) of
        (r, w) \<Rightarrow> (r, \<lparr>world = w, calls = calls e @ [(CallStateFunc f, currentState h)]\<rparr>))"

definition call_onEntryFunc :: "'w program \<Rightarrow> fptr \<Rightarrow> FsmHandle_t \<Rightarrow> 'w env \<Rightarrow> 'w env" where
  "call_onEntryFunc prog f h e =
     \<lparr>world = onEntryFuncAt prog f h (world e),
      calls = calls e @ [(CallOnEntryFunc f, currentState h)]\<rparr>"

definition call_onExitFunc :: "'w program \<Rightarrow> fptr \<Rightarrow> FsmHandle_t \<Rightarrow> 'w env \<Rightarrow> 'w env" where
  "call_onExitFunc prog f h e =
     \<lparr>world = onExitFuncAt prog f h (world e),
      calls = calls e @ [(CallOnExitFunc f, currentState h)]\<rparr>"

section \<open>\<^verbatim>\<open>fsmRun\<close>\<close>

text \<open>
  Reading \<^verbatim>\<open>table[i]\<close> with \<open>i\<close> beyond the array is undefined behaviour in C; the model
  stops there with a fault that carries the index.
\<close>

datatype fault = TableIndexOutOfBounds uint8_t

definition table_at :: "FsmHandle_t \<Rightarrow> uint8_t \<Rightarrow> fault + FsmStateDef_t" where
  "table_at h i =
     (if unat i < length (table h) then Inr (table h ! unat i)
      else Inl (TableIndexOutOfBounds i))"

text \<open>
  \<^verbatim>\<open>void fsmRun(FsmHandle_t* fsmHandle)\<close>. The source reads
  \<^verbatim>\<open>table[fsmHandle->currentState]\<close> anew for the test, the call and the exit hook; no
  action writes to the handle, so the three reads give the same slot \<open>cur\<close>.
\<close>

definition fsmRun :: "'w program \<Rightarrow> FsmHandle_t \<Rightarrow> 'w env \<Rightarrow> fault + (FsmHandle_t \<times> 'w env)" where
  "fsmRun prog fsmHandle e =
     (case table_at fsmHandle (currentState fsmHandle) of
        Inl flt \<Rightarrow> Inl flt
      | Inr cur \<Rightarrow>
          (case stateFunc cur of
             None \<Rightarrow> Inr (fsmHandle, e)
           | Some f \<Rightarrow>
               (case call_stateFunc prog f fsmHandle e of
                  (stateNext, e1) \<Rightarrow>
                    if currentState fsmHandle \<noteq> stateNext
                    then
                      (let e2 = (case onExitFunc cur of
                                   None \<Rightarrow> e1
                                 | Some g \<Rightarrow> call_onExitFunc prog g fsmHandle e1)
                       in case table_at fsmHandle stateNext of
                            Inl flt \<Rightarrow> Inl flt
                          | Inr nxt \<Rightarrow>
                              (let e3 = (case onEntryFunc nxt of
                                           None \<Rightarrow> e2
                                         | Some g \<Rightarrow> call_onEntryFunc prog g fsmHandle e2)
                               in Inr (fsmHandle\<lparr>currentState := stateNext\<rparr>, e3)))
                    else Inr (fsmHandle, e1))))"

text \<open>\<open>n\<close> calls of \<^verbatim>\<open>fsmRun\<close> in a row, as the polling loop makes them.\<close>

fun fsmRun_times :: "nat \<Rightarrow> 'w program \<Rightarrow> FsmHandle_t \<Rightarrow> 'w env \<Rightarrow> fault + (FsmHandle_t \<times> 'w env)" where
  "fsmRun_times 0 prog h e = Inr (h, e)"
| "fsmRun_times (Suc n) prog h e =
     (case fsmRun prog h e of
        Inl flt \<Rightarrow> Inl flt
      | Inr (h', e') \<Rightarrow> fsmRun_times n prog h' e')"

section \<open>Sequences of calls\<close>

text \<open>
  The three entry points of the library as operations on a handle and an environment,
  and a sequence of them run from left to right; a fault ends the run.
\<close>

datatype op =
  OpInit uint8_t
| OpAdd uint8_t "fptr option" "fptr option" "fptr option"
| OpRun

fun exec_op :: "'w program \<Rightarrow> op \<Rightarrow> FsmHandle_t \<Rightarrow> 'w env \<Rightarrow> fault + (FsmHandle_t \<times> 'w env)" where
  "exec_op prog (OpInit initState) h e = Inr (snd (fsmInit h initState), e)"
| "exec_op prog (OpAdd state f en ex) h e = Inr (snd (fsmAdd h state f en ex), e)"
| "exec_op prog OpRun h e = fsmRun prog h e"

fun exec_ops :: "'w program \<Rightarrow> op list \<Rightarrow> FsmHandle_t \<Rightarrow> 'w env \<Rightarrow> fault + (FsmHandle_t \<times> 'w env)" where
  "exec_ops prog [] h e = Inr (h, e)"
| "exec_ops prog (x # xs) h e =
     (case exec_op prog x h e of
        Inl flt \<Rightarrow> Inl flt
      | Inr (h', e') \<Rightarrow> exec_ops prog xs h' e')"

section \<open>A concrete program\<close>

text \<open>
  A program whose world is a log. The process action at address \<open>f\<close> asks for state \<open>f\<close>
  and logs nothing; the entry and exit actions at address \<open>g\<close> log their kind, \<open>g\<close> and the
  \<^verbatim>\<open>currentState\<close> they read from the handle.
\<close>

definition log_prog :: "(string \<times> fptr \<times> uint8_t) list program" where
  "log_prog =
     \<lparr>stateFuncAt = (\<lambda>f h w. (of_nat f, w)),
      onEntryFuncAt = (\<lambda>g h w. w @ [(''enter'', g, currentState h)]),
      onExitFuncAt = (\<lambda>g h w. w @ [(''exit'', g, currentState h)])\<rparr>"

text \<open>A handle as the caller declares it, before \<^verbatim>\<open>fsmInit\<close>: ten slots of leftover data.\<close>

definition raw_handle :: FsmHandle_t where
  "raw_handle =
     \<lparr>currentState = 77,
      table = replicate 10 \<lparr>stateFunc = Some 1, onEntryFunc = Some 2, onExitFunc = None\<rparr>\<rparr>"

text \<open>
  The handle after \<^verbatim>\<open>fsmInit(&h, 0)\<close> and \<^verbatim>\<open>fsmAdd(&h, 0, f, NULL, g)\<close>, where \<open>f\<close> is the
  process action at address \<open>n\<close> and \<open>g\<close> the exit action at address 7: state 0 asks for
  state \<open>n\<close>.
\<close>

definition one_state_handle :: "fptr \<Rightarrow> FsmHandle_t" where
  "one_state_handle n = snd (fsmAdd (snd (fsmInit raw_handle 0)) 0 (Some n) None (Some 7))"

text \<open>
  The handle after \<^verbatim>\<open>fsmInit(&h, 0)\<close>, \<^verbatim>\<open>fsmAdd(&h, 0, f1, NULL, g7)\<close> and
  \<^verbatim>\<open>fsmAdd(&h, 1, f1, g8, NULL)\<close>: state 0 asks for state 1 and has an exit action,
  state 1 asks for state 1 and has an entry action.
\<close>

definition two_state_handle :: FsmHandle_t where
  "two_state_handle =
     snd (fsmAdd (snd (fsmAdd (snd (fsmInit raw_handle 0)) 0 (Some 1) None (Some 7)))
            1 (Some 1) (Some 8) None)"

text \<open>The environment before any call: an empty log, no call made.\<close>

definition env0 :: "(string \<times> fptr \<times> uint8_t) list env" where
  "env0 = \<lparr>world = [], calls = []\<rparr>"

section \<open>Initialisation\<close>

lemma fsmInit_loop_length: "length (fsmInit_loop i tbl) = length tbl"
proof (induction i tbl rule: fsmInit_loop.induct)
  case (1 i tbl)
  show ?case
  proof (cases "i < FSM_MAX_NR_OF_STATES")
    case True
    with 1 show ?thesis by (subst fsmInit_loop.simps) simp
  next
    case False
    then show ?thesis by (subst fsmInit_loop.simps) simp
  qed
qed

lemma unat_succ_below_max:
  "i < FSM_MAX_NR_OF_STATES \<Longrightarrow> unat (i + 1) = Suc (unat i)"
  by (simp add: FSM_MAX_NR_OF_STATES_def word_less_nat_alt unat_word_ariths)

text \<open>Started at \<open>i\<close>, the loop clears the slots from \<open>i\<close> up to the capacity and no other.\<close>

lemma fsmInit_loop_nth:
  "j < length tbl \<Longrightarrow>
   fsmInit_loop i tbl ! j =
     (if unat i \<le> j \<and> j < unat FSM_MAX_NR_OF_STATES
      then \<lparr>stateFunc = None, onEntryFunc = None, onExitFunc = None\<rparr>
      else tbl ! j)"
proof (induction i tbl rule: fsmInit_loop.induct)
  case (1 i tbl)
  show ?case
  proof (cases "i < FSM_MAX_NR_OF_STATES")
    case True
    then have lt: "unat i < unat FSM_MAX_NR_OF_STATES"
      by (simp add: word_less_nat_alt)
    from True have suc: "unat (i + 1) = Suc (unat i)"
      by (rule unat_succ_below_max)
    have "fsmInit_loop i tbl ! j =
          fsmInit_loop (i + 1)
            (tbl[unat i := (tbl ! unat i)\<lparr>stateFunc := None, onEntryFunc := None, onExitFunc := None\<rparr>]) ! j"
      using True by (subst fsmInit_loop.simps) simp
    also have "\<dots> =
      (if unat (i + 1) \<le> j \<and> j < unat FSM_MAX_NR_OF_STATES
       then \<lparr>stateFunc = None, onEntryFunc = None, onExitFunc = None\<rparr>
       else tbl[unat i := (tbl ! unat i)\<lparr>stateFunc := None, onEntryFunc := None, onExitFunc := None\<rparr>] ! j)"
      using "1.IH" [OF True] "1.prems" by simp
    also have "\<dots> =
      (if unat i \<le> j \<and> j < unat FSM_MAX_NR_OF_STATES
       then \<lparr>stateFunc = None, onEntryFunc = None, onExitFunc = None\<rparr>
       else tbl ! j)"
      using "1.prems" lt suc by (auto simp: nth_list_update)
    finally show ?thesis .
  next
    case False
    then have "unat FSM_MAX_NR_OF_STATES \<le> unat i"
      by (simp add: word_less_nat_alt)
    with False show ?thesis by (subst fsmInit_loop.simps) auto
  qed
qed

lemma fsmInit_loop_clears:
  assumes "length tbl = unat FSM_MAX_NR_OF_STATES"
  shows "fsmInit_loop 0 tbl =
         replicate (unat FSM_MAX_NR_OF_STATES) \<lparr>stateFunc = None, onEntryFunc = None, onExitFunc = None\<rparr>"
proof (rule nth_equalityI)
  show "length (fsmInit_loop 0 tbl) =
        length (replicate (unat FSM_MAX_NR_OF_STATES) \<lparr>stateFunc = None, onEntryFunc = None, onExitFunc = None\<rparr>)"
    using assms by (simp add: fsmInit_loop_length)
next
  fix j assume "j < length (fsmInit_loop 0 tbl)"
  then have "j < length tbl" by (simp add: fsmInit_loop_length)
  with assms show "fsmInit_loop 0 tbl ! j =
        replicate (unat FSM_MAX_NR_OF_STATES) \<lparr>stateFunc = None, onEntryFunc = None, onExitFunc = None\<rparr> ! j"
    by (simp add: fsmInit_loop_nth)
qed

lemma wf_raw_handle: "wf_handle raw_handle"
  by (simp add: wf_handle_def raw_handle_def FSM_MAX_NR_OF_STATES_def)

lemma fsmInit_value:
  assumes "wf_handle h"
  shows "fsmInit h initState =
           (if initState < FSM_MAX_NR_OF_STATES then 0 else - 1,
            \<lparr>currentState = (if initState < FSM_MAX_NR_OF_STATES then initState else 0),
             table = replicate (unat FSM_MAX_NR_OF_STATES)
                       \<lparr>stateFunc = None, onEntryFunc = None, onExitFunc = None\<rparr>\<rparr>)"
  using assms by (simp add: fsmInit_def wf_handle_def fsmInit_loop_clears)

text \<open>
  Claim C3. For every handle and every \<open>initState\<close>, \<^verbatim>\<open>fsmInit\<close> leaves a table whose
  every slot has its three pointers \<^verbatim>\<open>NULL\<close>, whatever \<open>initState\<close> is. With
  \<open>initState < FSM_MAX_NR_OF_STATES\<close> it sets \<^verbatim>\<open>currentState\<close> to \<open>initState\<close> and returns
  0; otherwise it sets \<^verbatim>\<open>currentState\<close> to 0 and returns -1.
\<close>

theorem fsmInit_contract:
  assumes "wf_handle h"
  shows "fsmInit h initState =
           (if initState < FSM_MAX_NR_OF_STATES then 0 else - 1,
            \<lparr>currentState = (if initState < FSM_MAX_NR_OF_STATES then initState else 0),
             table = replicate (unat FSM_MAX_NR_OF_STATES)
                       \<lparr>stateFunc = None, onEntryFunc = None, onExitFunc = None\<rparr>\<rparr>)"
  using assms by (rule fsmInit_value)

text \<open>
  On the handle \<open>raw_handle\<close>, whose slots all hold old pointers: start state 3 succeeds,
  start state 200 fails with \<^verbatim>\<open>currentState\<close> 0 and return code -1, and both clear the table.
\<close>

theorem fsmInit_contract_witness:
  "wf_handle raw_handle \<and>
   fsmInit raw_handle 3 =
     (0, \<lparr>currentState = 3,
          table = replicate 10 \<lparr>stateFunc = None, onEntryFunc = None, onExitFunc = None\<rparr>\<rparr>) \<and>
   fsmInit raw_handle 200 =
     (- 1, \<lparr>currentState = 0,
            table = replicate 10 \<lparr>stateFunc = None, onEntryFunc = None, onExitFunc = None\<rparr>\<rparr>) \<and>
   sint (fst (fsmInit raw_handle 200)) = - 1"
  using wf_raw_handle fsmInit_contract [OF wf_raw_handle, of 3]
    fsmInit_contract [OF wf_raw_handle, of 200]
  by (simp add: FSM_MAX_NR_OF_STATES_def)

section \<open>Registration\<close>

lemma wf_fsmInit: "wf_handle h \<Longrightarrow> wf_handle (snd (fsmInit h initState))"
  by (simp add: fsmInit_value) (simp add: wf_handle_def)

lemma wf_fsmAdd: "wf_handle h \<Longrightarrow> wf_handle (snd (fsmAdd h state f en ex))"
  by (simp add: fsmAdd_def wf_handle_def)

lemma currentState_fsmAdd: "currentState (snd (fsmAdd h state f en ex)) = currentState h"
  by (simp add: fsmAdd_def)

text \<open>
  Claim C4. \<^verbatim>\<open>fsmAdd\<close> returns -1 exactly when \<open>state\<close> is not below
  \<open>FSM_MAX_NR_OF_STATES\<close> or the process pointer is \<^verbatim>\<open>NULL\<close>, and 0 otherwise; when it
  returns -1 the handle, and so the whole table, is as it was.
\<close>

theorem fsmAdd_fails_iff:
  "(fst (fsmAdd h state f en ex) = - 1) = (FSM_MAX_NR_OF_STATES \<le> state \<or> f = None) \<and>
   (fst (fsmAdd h state f en ex) = 0) = (state < FSM_MAX_NR_OF_STATES \<and> f \<noteq> None) \<and>
   (FSM_MAX_NR_OF_STATES \<le> state \<or> f = None \<longrightarrow> snd (fsmAdd h state f en ex) = h)"
  by (auto simp: fsmAdd_def Let_def)

text \<open>
  On the handle \<open>raw_handle\<close>: state 10 with all three actions is refused, state 4 without
  a process action is refused, both leave the handle as it was; state 4 with a process
  action is accepted and stored.
\<close>

theorem fsmAdd_fails_iff_witness:
  "fsmAdd raw_handle 10 (Some 5) (Some 6) (Some 7) = (- 1, raw_handle) \<and>
   fsmAdd raw_handle 4 None (Some 6) (Some 7) = (- 1, raw_handle) \<and>
   fst (fsmAdd raw_handle 4 (Some 5) (Some 6) (Some 7)) = 0 \<and>
   stateFunc (table (snd (fsmAdd raw_handle 4 (Some 5) (Some 6) (Some 7))) ! 4) = Some 5"
proof -
  have "fsmAdd raw_handle 10 (Some 5) (Some 6) (Some 7) = (- 1, raw_handle)"
    using fsmAdd_fails_iff [of raw_handle 10 "Some 5" "Some 6" "Some 7"]
    by (simp add: FSM_MAX_NR_OF_STATES_def prod_eq_iff)
  moreover have "fsmAdd raw_handle 4 None (Some 6) (Some 7) = (- 1, raw_handle)"
    using fsmAdd_fails_iff [of raw_handle 4 None "Some 6" "Some 7"]
    by (simp add: prod_eq_iff)
  moreover have "fst (fsmAdd raw_handle 4 (Some 5) (Some 6) (Some 7)) = 0"
    using fsmAdd_fails_iff [of raw_handle 4 "Some 5" "Some 6" "Some 7"]
    by (simp add: FSM_MAX_NR_OF_STATES_def)
  moreover have "stateFunc (table (snd (fsmAdd raw_handle 4 (Some 5) (Some 6) (Some 7))) ! 4) = Some 5"
    by (simp add: fsmAdd_def FSM_MAX_NR_OF_STATES_def raw_handle_def)
  ultimately show ?thesis by simp
qed

text \<open>
  Claim C5. For \<open>state < FSM_MAX_NR_OF_STATES\<close> and a process pointer that is not
  \<^verbatim>\<open>NULL\<close>, \<^verbatim>\<open>fsmAdd\<close> returns 0 and slot \<open>state\<close> then holds exactly the three pointers
  passed in, whatever it held before. A second registration of the same state returns 0
  as well and leaves the handle that the second registration alone would have left: the
  slot holds the latest three pointers.
\<close>

theorem fsmAdd_overwrites_slot:
  assumes "wf_handle h" and "state < FSM_MAX_NR_OF_STATES"
  shows "fst (fsmAdd h state (Some f) en ex) = 0 \<and>
         table (snd (fsmAdd h state (Some f) en ex)) ! unat state =
           \<lparr>stateFunc = Some f, onEntryFunc = en, onExitFunc = ex\<rparr> \<and>
         fst (fsmAdd (snd (fsmAdd h state (Some f) en ex)) state (Some f') en' ex') = 0 \<and>
         table (snd (fsmAdd (snd (fsmAdd h state (Some f) en ex)) state (Some f') en' ex')) ! unat state =
           \<lparr>stateFunc = Some f', onEntryFunc = en', onExitFunc = ex'\<rparr> \<and>
         snd (fsmAdd (snd (fsmAdd h state (Some f) en ex)) state (Some f') en' ex') =
           snd (fsmAdd h state (Some f') en' ex')"
proof -
  from assms have "unat state < length (table h)"
    by (simp add: wf_handle_def word_less_nat_alt)
  with assms(2) show ?thesis
    by (simp add: fsmAdd_def)
qed

text \<open>
  Slot 2 of \<open>raw_handle\<close> holds the pointers 1, 2 and \<^verbatim>\<open>NULL\<close>. Registering 5,
  \<^verbatim>\<open>NULL\<close>, 6 replaces all three, and registering 7, 8, \<^verbatim>\<open>NULL\<close> afterwards replaces
  them again.
\<close>

theorem fsmAdd_overwrites_slot_witness:
  "wf_handle raw_handle \<and> (2 :: uint8_t) < FSM_MAX_NR_OF_STATES \<and>
   table raw_handle ! 2 = \<lparr>stateFunc = Some 1, onEntryFunc = Some 2, onExitFunc = None\<rparr> \<and>
   fst (fsmAdd raw_handle 2 (Some 5) None (Some 6)) = 0 \<and>
   table (snd (fsmAdd raw_handle 2 (Some 5) None (Some 6))) ! 2 =
     \<lparr>stateFunc = Some 5, onEntryFunc = None, onExitFunc = Some 6\<rparr> \<and>
   table (snd (fsmAdd (snd (fsmAdd raw_handle 2 (Some 5) None (Some 6))) 2 (Some 7) (Some 8) None)) ! 2 =
     \<lparr>stateFunc = Some 7, onEntryFunc = Some 8, onExitFunc = None\<rparr>"
proof -
  have lt: "(2 :: uint8_t) < FSM_MAX_NR_OF_STATES"
    by (simp add: FSM_MAX_NR_OF_STATES_def)
  have old: "table raw_handle ! 2 = \<lparr>stateFunc = Some 1, onEntryFunc = Some 2, onExitFunc = None\<rparr>"
    by (simp add: raw_handle_def)
  have two: "unat (2 :: uint8_t) = 2"
    by simp
  show ?thesis
    using wf_raw_handle lt old
      fsmAdd_overwrites_slot [OF wf_raw_handle lt, of 5 None "Some 6" 7 "Some 8" None, unfolded two]
    by blast
qed

text \<open>
  Claim C8. For two different states below \<open>FSM_MAX_NR_OF_STATES\<close>, each with a process
  pointer that is not \<^verbatim>\<open>NULL\<close>, registering the first and then the second leaves the
  same handle as registering the second and then the first, and all four calls return 0.
\<close>

theorem fsmAdd_commute:
  assumes "s1 \<noteq> s2"
    and "s1 < FSM_MAX_NR_OF_STATES" and "s2 < FSM_MAX_NR_OF_STATES"
  shows "snd (fsmAdd (snd (fsmAdd h s1 (Some f1) en1 ex1)) s2 (Some f2) en2 ex2) =
         snd (fsmAdd (snd (fsmAdd h s2 (Some f2) en2 ex2)) s1 (Some f1) en1 ex1) \<and>
         fst (fsmAdd h s1 (Some f1) en1 ex1) = 0 \<and>
         fst (fsmAdd (snd (fsmAdd h s1 (Some f1) en1 ex1)) s2 (Some f2) en2 ex2) = 0 \<and>
         fst (fsmAdd h s2 (Some f2) en2 ex2) = 0 \<and>
         fst (fsmAdd (snd (fsmAdd h s2 (Some f2) en2 ex2)) s1 (Some f1) en1 ex1) = 0"
proof -
  from assms(1) have ne: "unat s1 \<noteq> unat s2"
    by (simp add: word_unat_eq_iff)
  with assms(2,3) show ?thesis
    by (simp add: fsmAdd_def list_update_swap [of "unat s1" "unat s2"])
qed

text \<open>States 1 and 2 registered on \<open>raw_handle\<close> in both orders.\<close>

theorem fsmAdd_commute_witness:
  "(1 :: uint8_t) \<noteq> 2 \<and> (1 :: uint8_t) < FSM_MAX_NR_OF_STATES \<and>
   (2 :: uint8_t) < FSM_MAX_NR_OF_STATES \<and>
   snd (fsmAdd (snd (fsmAdd raw_handle 1 (Some 5) None (Some 6))) 2 (Some 7) (Some 8) None) =
   snd (fsmAdd (snd (fsmAdd raw_handle 2 (Some 7) (Some 8) None)) 1 (Some 5) None (Some 6)) \<and>
   table (snd (fsmAdd (snd (fsmAdd raw_handle 1 (Some 5) None (Some 6))) 2 (Some 7) (Some 8) None)) ! 1 =
     \<lparr>stateFunc = Some 5, onEntryFunc = None, onExitFunc = Some 6\<rparr>"
proof -
  have ne: "(1 :: uint8_t) \<noteq> 2" by simp
  have lt1: "(1 :: uint8_t) < FSM_MAX_NR_OF_STATES"
    by (simp add: FSM_MAX_NR_OF_STATES_def)
  have lt2: "(2 :: uint8_t) < FSM_MAX_NR_OF_STATES"
    by (simp add: FSM_MAX_NR_OF_STATES_def)
  have slot: "table (snd (fsmAdd (snd (fsmAdd raw_handle 1 (Some 5) None (Some 6))) 2 (Some 7) (Some 8) None)) ! 1 =
     \<lparr>stateFunc = Some 5, onEntryFunc = None, onExitFunc = Some 6\<rparr>"
    by (simp add: fsmAdd_def FSM_MAX_NR_OF_STATES_def raw_handle_def)
  show ?thesis
    using ne lt1 lt2 slot
      fsmAdd_commute [OF ne lt1 lt2, of raw_handle 5 None "Some 6" 7 "Some 8" None]
    by simp
qed

text \<open>
  Claim C10. When \<^verbatim>\<open>fsmAdd\<close> returns 0 for slot \<open>state\<close>, \<^verbatim>\<open>currentState\<close> is as it was,
  the table has as many slots as before, and every slot other than \<open>state\<close> is as it was.
\<close>

theorem fsmAdd_frame:
  assumes "fst (fsmAdd h state f en ex) = 0"
  shows "currentState (snd (fsmAdd h state f en ex)) = currentState h \<and>
         length (table (snd (fsmAdd h state f en ex))) = length (table h) \<and>
         (\<forall>j. j \<noteq> unat state \<longrightarrow> table (snd (fsmAdd h state f en ex)) ! j = table h ! j)"
  using assms by (simp add: fsmAdd_def split: if_splits)

text \<open>
  Registering state 2 on \<open>raw_handle\<close> leaves \<^verbatim>\<open>currentState\<close> at 77 and slot 3 with
  the pointers it had.
\<close>

theorem fsmAdd_frame_witness:
  "fst (fsmAdd raw_handle 2 (Some 5) None (Some 6)) = 0 \<and>
   currentState (snd (fsmAdd raw_handle 2 (Some 5) None (Some 6))) = 77 \<and>
   length (table (snd (fsmAdd raw_handle 2 (Some 5) None (Some 6)))) = 10 \<and>
   table (snd (fsmAdd raw_handle 2 (Some 5) None (Some 6))) ! 3 =
     \<lparr>stateFunc = Some 1, onEntryFunc = Some 2, onExitFunc = None\<rparr>"
proof -
  have ok: "fst (fsmAdd raw_handle 2 (Some 5) None (Some 6)) = 0"
    by (simp add: fsmAdd_def FSM_MAX_NR_OF_STATES_def)
  have frame:
    "currentState (snd (fsmAdd raw_handle 2 (Some 5) None (Some 6))) = currentState raw_handle \<and>
     length (table (snd (fsmAdd raw_handle 2 (Some 5) None (Some 6)))) = length (table raw_handle) \<and>
     (\<forall>j. j \<noteq> unat (2 :: uint8_t) \<longrightarrow>
        table (snd (fsmAdd raw_handle 2 (Some 5) None (Some 6))) ! j = table raw_handle ! j)"
    using ok by (rule fsmAdd_frame)
  then have "table (snd (fsmAdd raw_handle 2 (Some 5) None (Some 6))) ! 3 = table raw_handle ! 3"
    by simp
  with ok frame show ?thesis
    by (simp add: raw_handle_def)
qed

section \<open>The step\<close>

lemma index_in_table:
  "wf_handle h \<Longrightarrow> i < FSM_MAX_NR_OF_STATES \<Longrightarrow> unat i < length (table h)"
  by (simp add: wf_handle_def word_less_nat_alt)

lemma table_at_in_range:
  "wf_handle h \<Longrightarrow> i < FSM_MAX_NR_OF_STATES \<Longrightarrow> table_at h i = Inr (table h ! unat i)"
  by (simp add: table_at_def index_in_table)

lemma table_at_out_of_range:
  "wf_handle h \<Longrightarrow> FSM_MAX_NR_OF_STATES \<le> i \<Longrightarrow> table_at h i = Inl (TableIndexOutOfBounds i)"
  by (simp add: table_at_def wf_handle_def word_le_nat_alt)

lemma table_at_Inr_iff:
  "wf_handle h \<Longrightarrow> (table_at h i = Inr s) = (i < FSM_MAX_NR_OF_STATES \<and> s = table h ! unat i)"
  by (auto simp: table_at_def wf_handle_def word_less_nat_alt)

text \<open>The step on a slot without process action.\<close>

lemma fsmRun_inert_value:
  assumes "wf_handle h"
    and "currentState h < FSM_MAX_NR_OF_STATES"
    and "stateFunc (table h ! unat (currentState h)) = None"
  shows "fsmRun prog h e = Inr (h, e)"
  using assms by (simp add: fsmRun_def table_at_in_range)

text \<open>The step when the process action asks for another state that is in range.\<close>

lemma fsmRun_transition_value:
  assumes "wf_handle h"
    and "currentState h < FSM_MAX_NR_OF_STATES"
    and "stateFunc (table h ! unat (currentState h)) = Some f"
    and "stateFuncAt prog f h (world e) = (stateNext, w1)"
    and "stateNext \<noteq> currentState h"
    and "stateNext < FSM_MAX_NR_OF_STATES"
  shows "fsmRun prog h e =
           Inr (h\<lparr>currentState := stateNext\<rparr>,
                \<lparr>world =
                   (case onEntryFunc (table h ! unat stateNext) of
                      None \<Rightarrow> id | Some g \<Rightarrow> onEntryFuncAt prog g h)
                     ((case onExitFunc (table h ! unat (currentState h)) of
                         None \<Rightarrow> id | Some g \<Rightarrow> onExitFuncAt prog g h) w1),
                 calls =
                   calls e @ [(CallStateFunc f, currentState h)]
                     @ (case onExitFunc (table h ! unat (currentState h)) of
                          None \<Rightarrow> [] | Some g \<Rightarrow> [(CallOnExitFunc g, currentState h)])
                     @ (case onEntryFunc (table h ! unat stateNext) of
                          None \<Rightarrow> [] | Some g \<Rightarrow> [(CallOnEntryFunc g, currentState h)])\<rparr>)"
proof -
  have cur: "table_at h (currentState h) = Inr (table h ! unat (currentState h))"
    using assms(1,2) by (rule table_at_in_range)
  have nxt: "table_at h stateNext = Inr (table h ! unat stateNext)"
    using assms(1,6) by (rule table_at_in_range)
  have ne: "currentState h \<noteq> stateNext"
    using assms(5) by simp
  show ?thesis
    using assms(3,4) ne
    by (simp add: fsmRun_def cur nxt call_stateFunc_def call_onExitFunc_def
        call_onEntryFunc_def split: option.split)
qed

text \<open>The step when the process action asks for a state beyond the table.\<close>

lemma fsmRun_out_of_range_value:
  assumes "wf_handle h"
    and "currentState h < FSM_MAX_NR_OF_STATES"
    and "stateFunc (table h ! unat (currentState h)) = Some f"
    and "stateFuncAt prog f h (world e) = (stateNext, w1)"
    and "FSM_MAX_NR_OF_STATES \<le> stateNext"
  shows "fsmRun prog h e = Inl (TableIndexOutOfBounds stateNext)"
proof -
  have cur: "table_at h (currentState h) = Inr (table h ! unat (currentState h))"
    using assms(1,2) by (rule table_at_in_range)
  have nxt: "table_at h stateNext = Inl (TableIndexOutOfBounds stateNext)"
    using assms(1,5) by (rule table_at_out_of_range)
  have ne: "currentState h \<noteq> stateNext"
    using assms(2,5) by auto
  show ?thesis
    using assms(3,4) ne
    by (simp add: fsmRun_def cur nxt call_stateFunc_def Let_def)
qed

lemma fsmRun_times_inert:
  assumes "wf_handle h"
    and "currentState h < FSM_MAX_NR_OF_STATES"
    and "stateFunc (table h ! unat (currentState h)) = None"
  shows "fsmRun_times n prog h e = Inr (h, e)"
proof (induction n)
  case 0
  show ?case by simp
next
  case (Suc n)
  have "fsmRun prog h e = Inr (h, e)"
    using assms by (rule fsmRun_inert_value)
  with Suc show ?case by simp
qed

subsection \<open>The concrete handles\<close>

lemma fsmInit_raw_handle:
  "snd (fsmInit raw_handle initState) =
     \<lparr>currentState = (if initState < 10 then initState else 0),
      table = replicate 10 \<lparr>stateFunc = None, onEntryFunc = None, onExitFunc = None\<rparr>\<rparr>"
  by (simp add: fsmInit_value [OF wf_raw_handle] FSM_MAX_NR_OF_STATES_def)

lemma one_state_handle_value:
  "one_state_handle n =
     \<lparr>currentState = 0,
      table = (replicate 10 \<lparr>stateFunc = None, onEntryFunc = None, onExitFunc = None\<rparr>)
                [0 := \<lparr>stateFunc = Some n, onEntryFunc = None, onExitFunc = Some 7\<rparr>]\<rparr>"
  by (simp add: one_state_handle_def fsmInit_raw_handle fsmAdd_def FSM_MAX_NR_OF_STATES_def)

lemma two_state_handle_value:
  "two_state_handle =
     \<lparr>currentState = 0,
      table = (replicate 10 \<lparr>stateFunc = None, onEntryFunc = None, onExitFunc = None\<rparr>)
                [0 := \<lparr>stateFunc = Some 1, onEntryFunc = None, onExitFunc = Some 7\<rparr>,
                 1 := \<lparr>stateFunc = Some 1, onEntryFunc = Some 8, onExitFunc = None\<rparr>]\<rparr>"
  by (simp add: two_state_handle_def fsmInit_raw_handle fsmAdd_def FSM_MAX_NR_OF_STATES_def)

lemma wf_one_state_handle: "wf_handle (one_state_handle n)"
  by (simp add: one_state_handle_def wf_fsmAdd wf_fsmInit wf_raw_handle)

lemma wf_two_state_handle: "wf_handle two_state_handle"
  by (simp add: two_state_handle_def wf_fsmAdd wf_fsmInit wf_raw_handle)

subsection \<open>Claims about one step\<close>

text \<open>
  Claim C7. When the slot at \<^verbatim>\<open>currentState\<close> has no process action, \<^verbatim>\<open>fsmRun\<close>
  returns without a fault, the handle (table and \<^verbatim>\<open>currentState\<close>) is as it was, and so
  is the environment: the world is untouched and no call was made.
\<close>

theorem fsmRun_idle:
  assumes "wf_handle h"
    and "currentState h < FSM_MAX_NR_OF_STATES"
    and "stateFunc (table h ! unat (currentState h)) = None"
  shows "fsmRun prog h e = Inr (h, e)"
  using assms by (rule fsmRun_inert_value)

text \<open>A handle fresh from \<^verbatim>\<open>fsmInit(&h, 2)\<close>, nothing registered: the step does nothing.\<close>

theorem fsmRun_idle_witness:
  "wf_handle (snd (fsmInit raw_handle 2)) \<and>
   currentState (snd (fsmInit raw_handle 2)) = 2 \<and>
   stateFunc (table (snd (fsmInit raw_handle 2)) ! 2) = None \<and>
   fsmRun log_prog (snd (fsmInit raw_handle 2)) env0 = Inr (snd (fsmInit raw_handle 2), env0)"
proof -
  have wf: "wf_handle (snd (fsmInit raw_handle 2))"
    using wf_raw_handle by (rule wf_fsmInit)
  have cur: "currentState (snd (fsmInit raw_handle 2)) = 2"
    by (simp add: fsmInit_raw_handle)
  have lt: "currentState (snd (fsmInit raw_handle 2)) < FSM_MAX_NR_OF_STATES"
    by (simp add: fsmInit_raw_handle FSM_MAX_NR_OF_STATES_def)
  have inert: "stateFunc (table (snd (fsmInit raw_handle 2)) ! unat (currentState (snd (fsmInit raw_handle 2)))) = None"
    by (simp add: fsmInit_raw_handle)
  have slot: "stateFunc (table (snd (fsmInit raw_handle 2)) ! 2) = None"
    by (simp add: fsmInit_raw_handle)
  show ?thesis
    using wf cur slot fsmRun_idle [OF wf lt inert, of log_prog env0]
    by blast
qed

text \<open>
  Claim C6. When the slot at \<^verbatim>\<open>currentState\<close> has a process action and that action
  returns \<^verbatim>\<open>currentState\<close>, the step leaves the handle as it was, the world is the one
  the process action left, and the only call made is the call of the process action: no
  entry and no exit action runs.
\<close>

theorem fsmRun_stay:
  assumes "wf_handle h"
    and "currentState h < FSM_MAX_NR_OF_STATES"
    and "stateFunc (table h ! unat (currentState h)) = Some f"
    and "stateFuncAt prog f h (world e) = (currentState h, w1)"
  shows "fsmRun prog h e =
           Inr (h, \<lparr>world = w1, calls = calls e @ [(CallStateFunc f, currentState h)]\<rparr>)"
  using assms by (simp add: fsmRun_def table_at_in_range call_stateFunc_def)

text \<open>
  State 1 of \<open>two_state_handle\<close> asks for state 1 and has an entry action: a step in
  state 1 logs nothing and stays.
\<close>

theorem fsmRun_stay_witness:
  "wf_handle (two_state_handle\<lparr>currentState := 1\<rparr>) \<and>
   table (two_state_handle\<lparr>currentState := 1\<rparr>) ! 1 =
     \<lparr>stateFunc = Some 1, onEntryFunc = Some 8, onExitFunc = None\<rparr> \<and>
   stateFuncAt log_prog 1 (two_state_handle\<lparr>currentState := 1\<rparr>) (world env0) = (1, []) \<and>
   fsmRun log_prog (two_state_handle\<lparr>currentState := 1\<rparr>) env0 =
     Inr (two_state_handle\<lparr>currentState := 1\<rparr>,
          \<lparr>world = [], calls = [(CallStateFunc 1, 1)]\<rparr>)"
proof -
  have wf: "wf_handle (two_state_handle\<lparr>currentState := 1\<rparr>)"
    using wf_two_state_handle by (simp add: wf_handle_def)
  have lt: "currentState (two_state_handle\<lparr>currentState := 1\<rparr>) < FSM_MAX_NR_OF_STATES"
    by (simp add: FSM_MAX_NR_OF_STATES_def)
  have slot: "table (two_state_handle\<lparr>currentState := 1\<rparr>) ! 1 =
     \<lparr>stateFunc = Some 1, onEntryFunc = Some 8, onExitFunc = None\<rparr>"
    by (simp add: two_state_handle_value)
  have reg: "stateFunc (table (two_state_handle\<lparr>currentState := 1\<rparr>) !
               unat (currentState (two_state_handle\<lparr>currentState := 1\<rparr>))) = Some 1"
    by (simp add: two_state_handle_value)
  have ret: "stateFuncAt log_prog 1 (two_state_handle\<lparr>currentState := 1\<rparr>) (world env0) =
               (currentState (two_state_handle\<lparr>currentState := 1\<rparr>), [])"
    by (simp add: log_prog_def env0_def)
  have "fsmRun log_prog (two_state_handle\<lparr>currentState := 1\<rparr>) env0 =
     Inr (two_state_handle\<lparr>currentState := 1\<rparr>,
          \<lparr>world = [], calls = [(CallStateFunc 1, 1)]\<rparr>)"
    using fsmRun_stay [OF wf lt reg ret] by (simp add: env0_def)
  with wf slot ret show ?thesis by simp
qed

text \<open>
  Claim C2, for a requested state inside the table. When the slot at \<^verbatim>\<open>currentState\<close>
  has a process action and that action returns \<open>stateNext\<close>, different from
  \<^verbatim>\<open>currentState\<close> and below \<open>FSM_MAX_NR_OF_STATES\<close>, the step makes its calls in this
  order: the process action, the exit action of the old slot if it has one, the entry
  action of slot \<open>stateNext\<close> if it has one. Each of them is handed the handle \<open>h\<close> of
  before the step, so each reads the old \<^verbatim>\<open>currentState\<close>; the world is threaded through
  them in that order. The handle returned differs from \<open>h\<close> in \<^verbatim>\<open>currentState\<close> only,
  which is \<open>stateNext\<close>.
\<close>

theorem fsmRun_transition_order:
  assumes "wf_handle h"
    and "currentState h < FSM_MAX_NR_OF_STATES"
    and "stateFunc (table h ! unat (currentState h)) = Some f"
    and "stateFuncAt prog f h (world e) = (stateNext, w1)"
    and "stateNext \<noteq> currentState h"
    and "stateNext < FSM_MAX_NR_OF_STATES"
  shows "fsmRun prog h e =
           Inr (h\<lparr>currentState := stateNext\<rparr>,
                \<lparr>world =
                   (case onEntryFunc (table h ! unat stateNext) of
                      None \<Rightarrow> id | Some g \<Rightarrow> onEntryFuncAt prog g h)
                     ((case onExitFunc (table h ! unat (currentState h)) of
                         None \<Rightarrow> id | Some g \<Rightarrow> onExitFuncAt prog g h) w1),
                 calls =
                   calls e @ [(CallStateFunc f, currentState h)]
                     @ (case onExitFunc (table h ! unat (currentState h)) of
                          None \<Rightarrow> [] | Some g \<Rightarrow> [(CallOnExitFunc g, currentState h)])
                     @ (case onEntryFunc (table h ! unat stateNext) of
                          None \<Rightarrow> [] | Some g \<Rightarrow> [(CallOnEntryFunc g, currentState h)])\<rparr>)"
  using assms by (rule fsmRun_transition_value)

text \<open>
  State 0 of \<open>two_state_handle\<close> asks for state 1 and has the exit action 7; state 1 has
  the entry action 8. One step from state 0 logs the exit before the entry, both having
  read \<^verbatim>\<open>currentState\<close> 0, and leaves \<^verbatim>\<open>currentState\<close> 1.
\<close>

theorem fsmRun_transition_order_witness:
  "wf_handle two_state_handle \<and> currentState two_state_handle = 0 \<and>
   table two_state_handle ! 0 = \<lparr>stateFunc = Some 1, onEntryFunc = None, onExitFunc = Some 7\<rparr> \<and>
   table two_state_handle ! 1 = \<lparr>stateFunc = Some 1, onEntryFunc = Some 8, onExitFunc = None\<rparr> \<and>
   stateFuncAt log_prog 1 two_state_handle (world env0) = (1, []) \<and>
   fsmRun log_prog two_state_handle env0 =
     Inr (two_state_handle\<lparr>currentState := 1\<rparr>,
          \<lparr>world = [(''exit'', 7, 0), (''enter'', 8, 0)],
           calls = [(CallStateFunc 1, 0), (CallOnExitFunc 7, 0), (CallOnEntryFunc 8, 0)]\<rparr>)"
proof -
  have cur: "currentState two_state_handle = 0"
    by (simp add: two_state_handle_value)
  have lt: "currentState two_state_handle < FSM_MAX_NR_OF_STATES"
    by (simp add: cur FSM_MAX_NR_OF_STATES_def)
  have slot0: "table two_state_handle ! 0 =
                 \<lparr>stateFunc = Some 1, onEntryFunc = None, onExitFunc = Some 7\<rparr>"
    by (simp add: two_state_handle_value)
  have slot1: "table two_state_handle ! 1 =
                 \<lparr>stateFunc = Some 1, onEntryFunc = Some 8, onExitFunc = None\<rparr>"
    by (simp add: two_state_handle_value)
  have reg: "stateFunc (table two_state_handle ! unat (currentState two_state_handle)) = Some 1"
    by (simp add: cur slot0)
  have ret: "stateFuncAt log_prog 1 two_state_handle (world env0) = (1, [])"
    by (simp add: log_prog_def env0_def)
  have ex: "onExitFunc (table two_state_handle ! unat (currentState two_state_handle)) = Some 7"
    by (simp add: cur slot0)
  have en: "onEntryFunc (table two_state_handle ! unat (1 :: uint8_t)) = Some 8"
    by (simp add: two_state_handle_value)
  have ne: "(1 :: uint8_t) \<noteq> currentState two_state_handle"
    by (simp add: cur)
  have lt1: "(1 :: uint8_t) < FSM_MAX_NR_OF_STATES"
    by (simp add: FSM_MAX_NR_OF_STATES_def)
  have "fsmRun log_prog two_state_handle env0 =
     Inr (two_state_handle\<lparr>currentState := 1\<rparr>,
          \<lparr>world = [(''exit'', 7, 0), (''enter'', 8, 0)],
           calls = [(CallStateFunc 1, 0), (CallOnExitFunc 7, 0), (CallOnEntryFunc 8, 0)]\<rparr>)"
    using fsmRun_transition_order [OF wf_two_state_handle lt reg ret ne lt1, unfolded ex en]
    by (simp add: cur log_prog_def env0_def)
  with wf_two_state_handle cur slot0 slot1 ret show ?thesis by simp
qed

text \<open>
  Claim C2 as it is written covers every requested state different from
  \<^verbatim>\<open>currentState\<close>. State 0 of \<open>one_state_handle 10\<close> has a process action that returns
  10: the exit action runs, then the step reads \<^verbatim>\<open>table[10]\<close>, one slot past the array,
  and no handle with \<^verbatim>\<open>currentState\<close> 10 results.
\<close>

theorem fsmRun_transition_out_of_range:
  "wf_handle (one_state_handle 10) \<and> currentState (one_state_handle 10) = 0 \<and>
   stateFunc (table (one_state_handle 10) ! 0) = Some 10 \<and>
   stateFuncAt log_prog 10 (one_state_handle 10) (world env0) = (10, []) \<and>
   (10 :: uint8_t) \<noteq> currentState (one_state_handle 10) \<and>
   fsmRun log_prog (one_state_handle 10) env0 = Inl (TableIndexOutOfBounds 10) \<and>
   fsmRun log_prog (one_state_handle 10) env0 \<noteq>
     Inr (one_state_handle 10\<lparr>currentState := 10\<rparr>,
          \<lparr>world = [(''exit'', 7, 0)],
           calls = [(CallStateFunc 10, 0), (CallOnExitFunc 7, 0)]\<rparr>)"
proof -
  have cur: "currentState (one_state_handle 10) = 0"
    by (simp add: one_state_handle_value)
  have lt: "currentState (one_state_handle 10) < FSM_MAX_NR_OF_STATES"
    by (simp add: cur FSM_MAX_NR_OF_STATES_def)
  have slot0: "stateFunc (table (one_state_handle 10) ! 0) = Some 10"
    by (simp add: one_state_handle_value)
  have reg: "stateFunc (table (one_state_handle 10) ! unat (currentState (one_state_handle 10))) = Some 10"
    by (simp add: cur slot0)
  have ret: "stateFuncAt log_prog 10 (one_state_handle 10) (world env0) = (10, [])"
    by (simp add: log_prog_def env0_def)
  have ge: "FSM_MAX_NR_OF_STATES \<le> (10 :: uint8_t)"
    by (simp add: FSM_MAX_NR_OF_STATES_def)
  have "fsmRun log_prog (one_state_handle 10) env0 = Inl (TableIndexOutOfBounds 10)"
    using wf_one_state_handle lt reg ret ge by (rule fsmRun_out_of_range_value)
  with wf_one_state_handle cur slot0 ret show ?thesis by simp
qed

text \<open>
  Claim C9. When the process action of the current slot returns \<open>stateNext\<close>, different
  from \<^verbatim>\<open>currentState\<close> and below \<open>FSM_MAX_NR_OF_STATES\<close>, and slot \<open>stateNext\<close> has no
  process action, the step still moves: the handle returned has \<^verbatim>\<open>currentState\<close>
  \<open>stateNext\<close>, and the entry action of slot \<open>stateNext\<close> is called only if it is there.
  From then on the handle has an unregistered current slot, and any number of steps, in
  any environment, leaves handle and environment as they are.
\<close>

theorem fsmRun_into_inert:
  assumes "wf_handle h"
    and "currentState h < FSM_MAX_NR_OF_STATES"
    and "stateFunc (table h ! unat (currentState h)) = Some f"
    and "stateFuncAt prog f h (world e) = (stateNext, w1)"
    and "stateNext \<noteq> currentState h"
    and "stateNext < FSM_MAX_NR_OF_STATES"
    and "stateFunc (table h ! unat stateNext) = None"
  shows "fsmRun prog h e =
           Inr (h\<lparr>currentState := stateNext\<rparr>,
                \<lparr>world =
                   (case onEntryFunc (table h ! unat stateNext) of
                      None \<Rightarrow> id | Some g \<Rightarrow> onEntryFuncAt prog g h)
                     ((case onExitFunc (table h ! unat (currentState h)) of
                         None \<Rightarrow> id | Some g \<Rightarrow> onExitFuncAt prog g h) w1),
                 calls =
                   calls e @ [(CallStateFunc f, currentState h)]
                     @ (case onExitFunc (table h ! unat (currentState h)) of
                          None \<Rightarrow> [] | Some g \<Rightarrow> [(CallOnExitFunc g, currentState h)])
                     @ (case onEntryFunc (table h ! unat stateNext) of
                          None \<Rightarrow> [] | Some g \<Rightarrow> [(CallOnEntryFunc g, currentState h)])\<rparr>) \<and>
         (\<forall>n e'. fsmRun_times n prog (h\<lparr>currentState := stateNext\<rparr>) e' =
                    Inr (h\<lparr>currentState := stateNext\<rparr>, e'))"
proof -
  note step = fsmRun_transition_value [OF assms(1-6)]
  have wf': "wf_handle (h\<lparr>currentState := stateNext\<rparr>)"
    using assms(1) by (simp add: wf_handle_def)
  have idle: "fsmRun_times n prog (h\<lparr>currentState := stateNext\<rparr>) e' =
                Inr (h\<lparr>currentState := stateNext\<rparr>, e')" for n e'
    using wf' assms(6,7) by (intro fsmRun_times_inert) simp_all
  from step idle show ?thesis by blast
qed

text \<open>
  State 0 of \<open>one_state_handle 3\<close> asks for state 3, which is not registered. The step
  runs the exit action of state 0 and moves to state 3; five more steps change nothing.
\<close>

theorem fsmRun_into_inert_witness:
  "wf_handle (one_state_handle 3) \<and> currentState (one_state_handle 3) = 0 \<and>
   stateFunc (table (one_state_handle 3) ! 0) = Some 3 \<and>
   stateFuncAt log_prog 3 (one_state_handle 3) (world env0) = (3, []) \<and>
   stateFunc (table (one_state_handle 3) ! 3) = None \<and>
   fsmRun log_prog (one_state_handle 3) env0 =
     Inr (one_state_handle 3\<lparr>currentState := 3\<rparr>,
          \<lparr>world = [(''exit'', 7, 0)],
           calls = [(CallStateFunc 3, 0), (CallOnExitFunc 7, 0)]\<rparr>) \<and>
   fsmRun_times 5 log_prog (one_state_handle 3\<lparr>currentState := 3\<rparr>)
       \<lparr>world = [(''exit'', 7, 0)], calls = [(CallStateFunc 3, 0), (CallOnExitFunc 7, 0)]\<rparr> =
     Inr (one_state_handle 3\<lparr>currentState := 3\<rparr>,
          \<lparr>world = [(''exit'', 7, 0)],
           calls = [(CallStateFunc 3, 0), (CallOnExitFunc 7, 0)]\<rparr>)"
proof -
  have cur: "currentState (one_state_handle 3) = 0"
    by (simp add: one_state_handle_value)
  have lt: "currentState (one_state_handle 3) < FSM_MAX_NR_OF_STATES"
    by (simp add: cur FSM_MAX_NR_OF_STATES_def)
  have slot0: "table (one_state_handle 3) ! 0 =
                 \<lparr>stateFunc = Some 3, onEntryFunc = None, onExitFunc = Some 7\<rparr>"
    by (simp add: one_state_handle_value)
  have slot3: "table (one_state_handle 3) ! 3 =
                 \<lparr>stateFunc = None, onEntryFunc = None, onExitFunc = None\<rparr>"
    by (simp add: one_state_handle_value)
  have reg: "stateFunc (table (one_state_handle 3) ! unat (currentState (one_state_handle 3))) = Some 3"
    by (simp add: cur slot0)
  have ret: "stateFuncAt log_prog 3 (one_state_handle 3) (world env0) = (3, [])"
    by (simp add: log_prog_def env0_def)
  have ne: "(3 :: uint8_t) \<noteq> currentState (one_state_handle 3)"
    by (simp add: cur)
  have lt3: "(3 :: uint8_t) < FSM_MAX_NR_OF_STATES"
    by (simp add: FSM_MAX_NR_OF_STATES_def)
  have inert: "stateFunc (table (one_state_handle 3) ! unat (3 :: uint8_t)) = None"
    by (simp add: slot3)
  note both = fsmRun_into_inert [OF wf_one_state_handle lt reg ret ne lt3 inert]
  have step: "fsmRun log_prog (one_state_handle 3) env0 =
     Inr (one_state_handle 3\<lparr>currentState := 3\<rparr>,
          \<lparr>world = [(''exit'', 7, 0)],
           calls = [(CallStateFunc 3, 0), (CallOnExitFunc 7, 0)]\<rparr>)"
    using both by (simp add: cur slot0 slot3 log_prog_def env0_def)
  have later: "fsmRun_times 5 log_prog (one_state_handle 3\<lparr>currentState := 3\<rparr>)
       \<lparr>world = [(''exit'', 7, 0)], calls = [(CallStateFunc 3, 0), (CallOnExitFunc 7, 0)]\<rparr> =
     Inr (one_state_handle 3\<lparr>currentState := 3\<rparr>,
          \<lparr>world = [(''exit'', 7, 0)],
           calls = [(CallStateFunc 3, 0), (CallOnExitFunc 7, 0)]\<rparr>)"
    using both by blast
  from wf_one_state_handle cur slot0 slot3 ret step later show ?thesis by simp
qed

section \<open>The range of \<^verbatim>\<open>currentState\<close>\<close>

text \<open>
  \<^verbatim>\<open>fsmInit\<close> leaves \<^verbatim>\<open>currentState\<close> below the capacity, \<^verbatim>\<open>fsmAdd\<close> does not write it,
  and a step that returns without a fault leaves it below the capacity and the table as
  it was.
\<close>

lemma fsmInit_currentState_in_range:
  "wf_handle h \<Longrightarrow> currentState (snd (fsmInit h initState)) < FSM_MAX_NR_OF_STATES"
  by (simp add: fsmInit_value) (simp add: FSM_MAX_NR_OF_STATES_def)

lemma fsmRun_Inr_handle:
  assumes "fsmRun prog h e = Inr (h', e')"
  shows "h' = h \<or> (\<exists>n nxt. table_at h n = Inr nxt \<and> h' = h\<lparr>currentState := n\<rparr>)"
proof (cases "table_at h (currentState h)")
  case (Inl flt)
  with assms show ?thesis by (simp add: fsmRun_def)
next
  case (Inr cur)
  show ?thesis
  proof (cases "stateFunc cur")
    case None
    with assms Inr show ?thesis by (simp add: fsmRun_def)
  next
    case (Some f)
    obtain n e1 where ret: "call_stateFunc prog f h e = (n, e1)"
      by (cases "call_stateFunc prog f h e")
    show ?thesis
    proof (cases "currentState h = n")
      case True
      with assms Inr Some ret show ?thesis by (simp add: fsmRun_def)
    next
      case False
      show ?thesis
      proof (cases "table_at h n")
        case (Inl flt)
        with assms Inr Some ret False show ?thesis by (simp add: fsmRun_def Let_def)
      next
        case (Inr nxt)
        with assms \<open>table_at h (currentState h) = Inr cur\<close> Some ret False
        have "h' = h\<lparr>currentState := n\<rparr>"
          by (simp add: fsmRun_def Let_def)
        with Inr show ?thesis by blast
      qed
    qed
  qed
qed

lemma fsmRun_table: "fsmRun prog h e = Inr (h', e') \<Longrightarrow> table h' = table h"
  by (drule fsmRun_Inr_handle) auto

lemma fsmRun_currentState_in_range:
  assumes "wf_handle h"
    and "currentState h < FSM_MAX_NR_OF_STATES"
    and "fsmRun prog h e = Inr (h', e')"
  shows "currentState h' < FSM_MAX_NR_OF_STATES"
  using fsmRun_Inr_handle [OF assms(3)] assms(1,2)
  by (auto simp: table_at_Inr_iff)

lemma exec_op_in_range:
  assumes "wf_handle h"
    and "currentState h < FSM_MAX_NR_OF_STATES"
    and "exec_op prog x h e = Inr (h', e')"
  shows "wf_handle h' \<and> currentState h' < FSM_MAX_NR_OF_STATES"
proof (cases x)
  case (OpInit initState)
  with assms(3) have "h' = snd (fsmInit h initState)"
    by simp
  with assms(1) show ?thesis
    by (simp add: wf_fsmInit fsmInit_currentState_in_range)
next
  case (OpAdd state f en ex)
  with assms(3) have "h' = snd (fsmAdd h state f en ex)"
    by simp
  with assms(1,2) show ?thesis
    by (simp add: wf_fsmAdd currentState_fsmAdd)
next
  case OpRun
  with assms have run: "fsmRun prog h e = Inr (h', e')"
    by simp
  from run have "table h' = table h"
    by (rule fsmRun_table)
  with assms(1) have "wf_handle h'"
    by (simp add: wf_handle_def)
  moreover from assms(1,2) run have "currentState h' < FSM_MAX_NR_OF_STATES"
    by (rule fsmRun_currentState_in_range)
  ultimately show ?thesis by simp
qed

text \<open>
  Along every sequence of calls that runs to its end without a fault, from a handle with
  \<^verbatim>\<open>currentState\<close> in range, \<^verbatim>\<open>currentState\<close> stays in range.
\<close>

lemma exec_ops_in_range:
  assumes "wf_handle h"
    and "currentState h < FSM_MAX_NR_OF_STATES"
    and "exec_ops prog xs h e = Inr (h', e')"
  shows "wf_handle h' \<and> currentState h' < FSM_MAX_NR_OF_STATES"
  using assms
proof (induction xs arbitrary: h e)
  case Nil
  then show ?case by simp
next
  case (Cons x xs)
  from Cons.prems(3) obtain h1 e1 where
    first: "exec_op prog x h e = Inr (h1, e1)" and
    rest: "exec_ops prog xs h1 e1 = Inr (h', e')"
    by (auto split: sum.splits)
  from Cons.prems(1,2) first
  have "wf_handle h1 \<and> currentState h1 < FSM_MAX_NR_OF_STATES"
    by (rule exec_op_in_range)
  with rest show ?case
    by (intro Cons.IH) simp_all
qed

text \<open>
  With process actions that only ever ask for states below the capacity, no step faults,
  and so no sequence of calls does.
\<close>

lemma fsmRun_no_fault:
  assumes "wf_handle h"
    and "currentState h < FSM_MAX_NR_OF_STATES"
    and "\<And>f h w. fst (stateFuncAt prog f h w) < FSM_MAX_NR_OF_STATES"
  shows "\<exists>h' e'. fsmRun prog h e = Inr (h', e')"
proof (cases "stateFunc (table h ! unat (currentState h))")
  case None
  with assms(1,2) have "fsmRun prog h e = Inr (h, e)"
    by (rule fsmRun_inert_value)
  then show ?thesis by blast
next
  case (Some f)
  obtain stateNext w1 where ret: "stateFuncAt prog f h (world e) = (stateNext, w1)"
    by (cases "stateFuncAt prog f h (world e)")
  have "fst (stateFuncAt prog f h (world e)) < FSM_MAX_NR_OF_STATES"
    by (rule assms(3))
  with ret have lt: "stateNext < FSM_MAX_NR_OF_STATES"
    by simp
  show ?thesis
  proof (cases "stateNext = currentState h")
    case True
    with assms(1,2) Some ret show ?thesis
      by (simp add: fsmRun_def table_at_in_range call_stateFunc_def)
  next
    case False
    with assms(1,2) Some ret lt show ?thesis
      by (simp add: fsmRun_transition_value)
  qed
qed

lemma exec_ops_no_fault:
  assumes "wf_handle h"
    and "currentState h < FSM_MAX_NR_OF_STATES"
    and "\<And>f h w. fst (stateFuncAt prog f h w) < FSM_MAX_NR_OF_STATES"
  shows "\<exists>h' e'. exec_ops prog xs h e = Inr (h', e')"
  using assms(1,2)
proof (induction xs arbitrary: h e)
  case Nil
  show ?case by simp
next
  case (Cons x xs)
  have "\<exists>h1 e1. exec_op prog x h e = Inr (h1, e1)"
  proof (cases x)
    case OpRun
    with fsmRun_no_fault [OF Cons.prems assms(3), of e] show ?thesis by simp
  qed simp_all
  then obtain h1 e1 where first: "exec_op prog x h e = Inr (h1, e1)"
    by blast
  with Cons.prems have "wf_handle h1 \<and> currentState h1 < FSM_MAX_NR_OF_STATES"
    by (intro exec_op_in_range)
  then have "\<exists>h' e'. exec_ops prog xs h1 e1 = Inr (h', e')"
    by (intro Cons.IH) simp_all
  with first show ?case by simp
qed

text \<open>
  Claim C1. The claim lets the process actions be arbitrary, and \<^verbatim>\<open>fsmRun\<close> does not
  compare their result with \<open>FSM_MAX_NR_OF_STATES\<close> as \<^verbatim>\<open>fsmInit\<close> and \<^verbatim>\<open>fsmAdd\<close>
  compare their argument. After \<^verbatim>\<open>fsmInit(&h, 0)\<close> and the registration of a process
  action that returns 10 for state 0, \<^verbatim>\<open>currentState\<close> is 0, in range; the step that
  follows reads \<^verbatim>\<open>table[10]\<close>, beyond the array, on its way to storing 10 into
  \<^verbatim>\<open>currentState\<close>.
\<close>

theorem fsmRun_next_state_unchecked:
  "exec_ops log_prog [OpInit 0, OpAdd 0 (Some 10) None (Some 7)] raw_handle env0 =
     Inr (one_state_handle 10, env0) \<and>
   currentState (one_state_handle 10) < FSM_MAX_NR_OF_STATES \<and>
   stateFuncAt log_prog 10 (one_state_handle 10) (world env0) = (10, []) \<and>
   exec_ops log_prog [OpInit 0, OpAdd 0 (Some 10) None (Some 7), OpRun] raw_handle env0 =
     Inl (TableIndexOutOfBounds 10)"
proof -
  have cur: "currentState (one_state_handle 10) = 0"
    by (simp add: one_state_handle_value)
  have lt: "currentState (one_state_handle 10) < FSM_MAX_NR_OF_STATES"
    by (simp add: cur FSM_MAX_NR_OF_STATES_def)
  have reg: "stateFunc (table (one_state_handle 10) ! unat (currentState (one_state_handle 10))) = Some 10"
    by (simp add: one_state_handle_value)
  have ret: "stateFuncAt log_prog 10 (one_state_handle 10) (world env0) = (10, [])"
    by (simp add: log_prog_def env0_def)
  have ge: "FSM_MAX_NR_OF_STATES \<le> (10 :: uint8_t)"
    by (simp add: FSM_MAX_NR_OF_STATES_def)
  have run: "fsmRun log_prog (one_state_handle 10) env0 = Inl (TableIndexOutOfBounds 10)"
    using wf_one_state_handle lt reg ret ge by (rule fsmRun_out_of_range_value)
  have prep: "exec_ops log_prog [OpInit 0, OpAdd 0 (Some 10) None (Some 7)] raw_handle env0 =
     Inr (one_state_handle 10, env0)"
    by (simp add: one_state_handle_def)
  have whole: "exec_ops log_prog [OpInit 0, OpAdd 0 (Some 10) None (Some 7), OpRun] raw_handle env0 =
     Inl (TableIndexOutOfBounds 10)"
    using run by (simp add: one_state_handle_def)
  from prep lt ret whole show ?thesis by simp
qed

end
